theory Spec2Isabelle
  imports Complex_Main "HOL-Library.AList"
begin

section \<open>Conventions of the embedding\<close>

text \<open>
  The development embeds two modules of the engine: the adaptation machinery of
  \<^verbatim>\<open>self_improvement_system.py\<close> and the frame loop of \<^verbatim>\<open>engine_core.py\<close>.

  \<^item> Python floats are modelled as \<^typ>\<open>real\<close>: rounding, infinities and NaN are not
    represented. Python ints are \<^typ>\<open>int\<close>.
  \<^item> Float division by zero raises in Python; every division of the source is guarded in
    the model and yields \<open>ZeroDivisionError\<close>.
  \<^item> A method that mutates \<^verbatim>\<open>self\<close> takes the object and returns the updated one. A method
    that can raise after it has already mutated the object returns the object together
    with the exception, if any.
  \<^item> Every reading of \<^verbatim>\<open>time.time()\<close> and the draw of \<^verbatim>\<open>random.random()\<close> are
    parameters of the function that performs them.
  \<^item> Strategy objects are shared between the registry list and the queued requests, and
    are mutated through either. They live in a store indexed by references; the registry
    and the requests hold references.
  \<^item> Console output (\<^verbatim>\<open>print\<close>) and \<^verbatim>\<open>time.sleep\<close> have no counterpart.
\<close>

text \<open>The only exception the modelled code can raise by itself.\<close>

datatype error = ZeroDivisionError

text \<open>Python's \<^verbatim>\<open>xs[-n:]\<close> for a positive literal \<open>n\<close>: the last \<open>n\<close> elements, or all of them.\<close>

definition last_n :: "nat \<Rightarrow> 'a list \<Rightarrow> 'a list" where
  "last_n n xs = drop (length xs - n) xs"

section \<open>Data model of the self-improvement system\<close>

record ImprovementSettings =
  learning_rate :: real
  adaptation_interval :: real
  performance_history_size :: int
  optimization_threshold :: real
  enable_autonomous_optimization :: bool
  enable_predictive_optimization :: bool
  max_optimization_attempts :: int

record PerformanceMetric =
  timestamp :: real
  system_name :: string
  metric_name :: string
  "value" :: real
  target :: real
  weight :: real

record OptimizationStrategy =
  name :: string
  description :: string
  parameters :: "(string \<times> real) list"
  effectiveness :: real
  last_applied :: real
  application_count :: int

record ImprovementStats =
  learning_cycles :: int
  optimizations_applied :: int
  performance_improvements :: int
  failed_optimizations :: int
  avg_improvement_rate :: real
  total_improvement :: real

type_synonym strategy_ref = nat

text \<open>The dictionaries built by \<^verbatim>\<open>_apply_optimizations\<close>, \<^verbatim>\<open>_analyze_performance\<close> and
  \<^verbatim>\<open>_generate_improvement_suggestions\<close>; the field prefixes tell their keys apart.\<close>

record OptimizationRequest =
  req_strategy :: strategy_ref
  req_system :: string
  req_severity :: string
  req_timestamp :: real

record Bottleneck =
  bn_system :: string
  bn_performance :: real
  bn_severity :: string

record PerformanceAnalysis =
  overall_performance :: real
  system_performance :: "(string \<times> real) list option"
  bottlenecks :: "Bottleneck list"

record Suggestion =
  sg_system :: string
  sg_type :: string
  sg_severity :: string
  sg_recommendation :: string
  sg_timestamp :: real

record SelfImprovementSystem =
  settings :: ImprovementSettings
  stats :: ImprovementStats
  performance_history :: "PerformanceMetric list"
  system_baselines :: "string \<rightharpoonup> (string \<rightharpoonup> real)"
  performance_trends :: "(string \<times> real list) list"
  strategy_store :: "strategy_ref \<Rightarrow> OptimizationStrategy"
  optimization_strategies :: "strategy_ref list"
  last_adaptation_time :: real
  improvement_suggestions :: "Suggestion list"
  optimization_queue :: "OptimizationRequest list"

section \<open>Construction\<close>

definition default_settings :: ImprovementSettings where
  "default_settings =
     \<lparr>learning_rate = 0.01, adaptation_interval = 10, performance_history_size = 1000,
      optimization_threshold = 0.8, enable_autonomous_optimization = True,
      enable_predictive_optimization = True, max_optimization_attempts = 10\<rparr>"

definition default_stats :: ImprovementStats where
  "default_stats =
     \<lparr>learning_cycles = 0, optimizations_applied = 0, performance_improvements = 0,
      failed_optimizations = 0, avg_improvement_rate = 0, total_improvement = 0\<rparr>"

definition new_strategy :: "string \<Rightarrow> string \<Rightarrow> (string \<times> real) list \<Rightarrow> OptimizationStrategy" where
  "new_strategy n d ps =
     \<lparr>name = n, description = d, parameters = ps, effectiveness = 0, last_applied = 0,
      application_count = 0\<rparr>"

definition default_strategies :: "OptimizationStrategy list" where
  "default_strategies =
     [new_strategy ''rendering_quality_adjustment''
        ''Dynamically adjust rendering quality based on performance''
        [(''target_fps'', 60), (''quality_step'', 0.1), (''min_quality'', 0.5),
         (''max_quality'', 1.5)],
      new_strategy ''physics_complexity_reduction''
        ''Reduce physics simulation complexity under load''
        [(''target_frame_time'', 0.016), (''complexity_step'', 0.05),
         (''min_complexity'', 0.5), (''max_complexity'', 1.5)],
      new_strategy ''ai_behavior_optimization''
        ''Optimize AI behavior update frequency''
        [(''target_response_time'', 0.05), (''update_rate_step'', 0.01),
         (''min_update_rate'', 0.05), (''max_update_rate'', 0.5)],
      new_strategy ''content_generation_caching''
        ''Optimize content generation caching strategies''
        [(''target_generation_time'', 1), (''cache_size_step'', 10),
         (''min_cache_size'', 50), (''max_cache_size'', 500)],
      new_strategy ''network_packet_rate_adjustment''
        ''Adjust network packet rate based on latency''
        [(''target_latency'', 0.05), (''packet_rate_step'', 5), (''min_packet_rate'', 20),
         (''max_packet_rate'', 120)]]"

text \<open>\<^verbatim>\<open>__init__\<close>: the five default strategies are allocated at references 0 to 4.\<close>

definition init :: SelfImprovementSystem where
  "init =
     \<lparr>settings = default_settings, stats = default_stats, performance_history = [],
      system_baselines = Map.empty, performance_trends = [],
      strategy_store =
        (\<lambda>r. if r < length default_strategies then default_strategies ! r
             else new_strategy [] [] []),
      optimization_strategies = [0 ..< length default_strategies],
      last_adaptation_time = 0, improvement_suggestions = [], optimization_queue = []\<rparr>"

section \<open>Recording metrics\<close>

text \<open>\<^verbatim>\<open>record_performance_metric\<close>: append, then drop the oldest entry if the history
  has grown beyond the configured size. \<open>now\<close> is the reading of the clock.\<close>

definition record_performance_metric ::
  "real \<Rightarrow> string \<Rightarrow> string \<Rightarrow> real \<Rightarrow> real \<Rightarrow> real \<Rightarrow> SelfImprovementSystem
    \<Rightarrow> SelfImprovementSystem" where
  "record_performance_metric now sn mn v t w s =
     (let metric = \<lparr>timestamp = now, system_name = sn, metric_name = mn, value = v,
                     target = t, weight = w\<rparr>;
          h = performance_history s @ [metric]
      in if int (length h) > performance_history_size (settings s)
         then s\<lparr>performance_history := tl h\<rparr>
         else s\<lparr>performance_history := h\<rparr>)"

section \<open>Performance analysis\<close>

text \<open>First loop of \<^verbatim>\<open>_analyze_performance\<close>: the ratios \<open>value / target\<close> of the window,
  grouped by subsystem in a dictionary that keeps the order in which keys were inserted.\<close>

fun group_ratios ::
  "PerformanceMetric list \<Rightarrow> (string \<times> real list) list \<Rightarrow> error + (string \<times> real list) list" where
  "group_ratios [] sp = Inr sp"
| "group_ratios (metric # rest) sp =
     (let sp1 = (if system_name metric \<notin> fst ` set sp
                 then sp @ [(system_name metric, [])] else sp)
      in if target metric = 0 then Inl ZeroDivisionError
         else group_ratios rest
                (AList.map_entry (system_name metric)
                   (\<lambda>values. values @ [value metric / target metric]) sp1))"

text \<open>Second loop: the average of every group, and the bottlenecks among them.\<close>

fun average_systems ::
  "(string \<times> real list) list \<Rightarrow> (string \<times> real) list \<Rightarrow> Bottleneck list
    \<Rightarrow> error + (string \<times> real) list \<times> Bottleneck list" where
  "average_systems [] system_averages bns = Inr (system_averages, bns)"
| "average_systems ((system, values) # rest) system_averages bns =
     (if length values = 0 then Inl ZeroDivisionError
      else
        let avg_performance = sum_list values / real (length values);
            system_averages1 = AList.update system avg_performance system_averages;
            bns1 = (if avg_performance < 0.7
                    then bns @ [\<lparr>bn_system = system, bn_performance = avg_performance,
                                 bn_severity = (if avg_performance < 0.5 then ''high''
                                                else ''medium'')\<rparr>]
                    else bns)
        in average_systems rest system_averages1 bns1)"

definition analyze_performance :: "SelfImprovementSystem \<Rightarrow> error + PerformanceAnalysis" where
  "analyze_performance s =
     (if length (performance_history s) < 10
      then Inr \<lparr>overall_performance = 1, system_performance = None, bottlenecks = []\<rparr>
      else
        let recent_metrics = last_n 100 (performance_history s) in
        case group_ratios recent_metrics [] of
          Inl e \<Rightarrow> Inl e
        | Inr sp \<Rightarrow>
            (case average_systems sp [] [] of
               Inl e \<Rightarrow> Inl e
             | Inr (system_averages, bns) \<Rightarrow>
                 Inr \<lparr>overall_performance =
                        (if system_averages \<noteq> []
                         then sum_list (map snd system_averages)
                                / real (length system_averages)
                         else 1),
                      system_performance = Some system_averages,
                      bottlenecks = bns\<rparr>))"

section \<open>Selecting and queueing strategies\<close>

definition strategy_mapping :: "(string \<times> string) list" where
  "strategy_mapping =
     [(''renderer'', ''rendering_quality_adjustment''),
      (''physics'', ''physics_complexity_reduction''),
      (''ai_behavior'', ''ai_behavior_optimization''),
      (''content_generator'', ''content_generation_caching''),
      (''networking'', ''network_packet_rate_adjustment'')]"

text \<open>\<^verbatim>\<open>_select_optimization_strategy\<close>: the first registered strategy carrying the mapped
  name; \<open>None\<close> when the subsystem is unmapped or no strategy has that name.\<close>

definition select_optimization_strategy ::
  "SelfImprovementSystem \<Rightarrow> string \<Rightarrow> string \<Rightarrow> strategy_ref option" where
  "select_optimization_strategy s system severity =
     (case map_of strategy_mapping system of
        None \<Rightarrow> None
      | Some strategy_name \<Rightarrow>
          if strategy_name = [] then None
          else find (\<lambda>r. name (strategy_store s r) = strategy_name)
                 (optimization_strategies s))"

text \<open>\<^verbatim>\<open>_apply_optimizations\<close>: one request per bottleneck that resolves to a strategy,
  appended to the queue. \<open>now\<close> stamps the requests.\<close>

definition enqueue_for :: "real \<Rightarrow> Bottleneck \<Rightarrow> SelfImprovementSystem \<Rightarrow> SelfImprovementSystem" where
  "enqueue_for now bottleneck s =
     (let system = bn_system bottleneck; severity = bn_severity bottleneck in
      case select_optimization_strategy s system severity of
        None \<Rightarrow> s
      | Some strategy \<Rightarrow>
          s\<lparr>optimization_queue := optimization_queue s @
               [\<lparr>req_strategy = strategy, req_system = system, req_severity = severity,
                 req_timestamp = now\<rparr>]\<rparr>)"

definition apply_optimizations ::
  "real \<Rightarrow> PerformanceAnalysis \<Rightarrow> SelfImprovementSystem \<Rightarrow> SelfImprovementSystem" where
  "apply_optimizations now performance_analysis s =
     fold (enqueue_for now) (bottlenecks performance_analysis) s"

section \<open>Applying queued optimizations\<close>

text \<open>What the body of the \<^verbatim>\<open>try\<close> block in \<^verbatim>\<open>_apply_optimization_strategy\<close> meets:
  either the simulated application raises, or \<^verbatim>\<open>random.random()\<close> returns a draw.\<close>

datatype simulation = Raises | Draw real

text \<open>\<^verbatim>\<open>_apply_optimization_strategy\<close>: the draw decides how the effectiveness of the
  strategy moves; the returned flag is \<open>True\<close> unless an exception was caught.\<close>

definition apply_optimization_strategy ::
  "simulation \<Rightarrow> strategy_ref \<Rightarrow> OptimizationRequest \<Rightarrow> SelfImprovementSystem
    \<Rightarrow> bool \<times> SelfImprovementSystem" where
  "apply_optimization_strategy sim strategy context s =
     (case sim of
        Raises \<Rightarrow> (False, s)
      | Draw r \<Rightarrow>
          let success = (r > 0.3);
              st = strategy_store s strategy;
              st1 = (if success
                     then st\<lparr>effectiveness := min 1 (effectiveness st + 0.1)\<rparr>
                     else st\<lparr>effectiveness := max 0 (effectiveness st - 0.05)\<rparr>)
          in (True, s\<lparr>strategy_store := (strategy_store s)(strategy := st1)\<rparr>))"

text \<open>\<^verbatim>\<open>_process_optimization_queue\<close>: at most one request leaves the queue per call.\<close>

definition process_optimization_queue ::
  "simulation \<Rightarrow> real \<Rightarrow> SelfImprovementSystem \<Rightarrow> SelfImprovementSystem" where
  "process_optimization_queue sim now s =
     (case optimization_queue s of
        [] \<Rightarrow> s
      | optimization # rest \<Rightarrow>
          let s1 = s\<lparr>optimization_queue := rest\<rparr>;
              strategy = req_strategy optimization;
              (success, s2) = apply_optimization_strategy sim strategy optimization s1
          in if success
             then
               let st = strategy_store s2 strategy in
               s2\<lparr>stats := (stats s2)\<lparr>optimizations_applied :=
                              optimizations_applied (stats s2) + 1\<rparr>,
                  strategy_store := (strategy_store s2)
                    (strategy := st\<lparr>application_count := application_count st + 1,
                                   last_applied := now\<rparr>)\<rparr>
             else
               s2\<lparr>stats := (stats s2)\<lparr>failed_optimizations :=
                              failed_optimizations (stats s2) + 1\<rparr>\<rparr>)"

section \<open>Trends, suggestions and baselines\<close>

text \<open>The loop of \<^verbatim>\<open>_update_performance_trends\<close>. A zero target raises in the middle of
  the loop; the entries written so far stay.\<close>

fun trend_loop ::
  "PerformanceMetric list \<Rightarrow> (string \<times> real list) list
    \<Rightarrow> (string \<times> real list) list \<times> error option" where
  "trend_loop [] tr = (tr, None)"
| "trend_loop (metric # rest) tr =
     (let system = system_name metric;
          tr1 = (if system \<notin> fst ` set tr then tr @ [(system, [])] else tr)
      in if target metric = 0 then (tr1, Some ZeroDivisionError)
         else
           let performance_ratio = value metric / target metric;
               tr2 = AList.map_entry system (\<lambda>t. t @ [performance_ratio]) tr1;
               tr3 = (case map_of tr2 system of
                        None \<Rightarrow> tr2
                      | Some t \<Rightarrow> if length t > 100 then AList.map_entry system tl tr2
                                  else tr2)
           in trend_loop rest tr3)"

definition update_performance_trends ::
  "SelfImprovementSystem \<Rightarrow> SelfImprovementSystem \<times> error option" where
  "update_performance_trends s =
     (if length (performance_history s) < 50 then (s, None)
      else
        let recent_metrics = last_n 50 (performance_history s);
            (tr, e) = trend_loop recent_metrics (performance_trends s)
        in (s\<lparr>performance_trends := tr\<rparr>, e))"

definition suggestion_for :: "real \<Rightarrow> string \<times> real list \<Rightarrow> Suggestion list" where
  "suggestion_for now entry =
     (let system = fst entry; trends = snd entry in
      if length trends < 10 then []
      else
        let recent_trend = sum_list (last_n 5 trends) / 5;
            older_trend = sum_list (take 5 (last_n 10 trends)) / 5
        in if recent_trend < older_trend * 0.9
           then [\<lparr>sg_system = system, sg_type = ''performance_decline'',
                   sg_severity = (if recent_trend < 0.5 then ''high'' else ''medium''),
                   sg_recommendation =
                     ''Investigate performance issues in '' @ system @ '' system'',
                   sg_timestamp = now\<rparr>]
           else [])"

definition generate_improvement_suggestions ::
  "real \<Rightarrow> SelfImprovementSystem \<Rightarrow> SelfImprovementSystem" where
  "generate_improvement_suggestions now s =
     s\<lparr>improvement_suggestions := concat (map (suggestion_for now) (performance_trends s))\<rparr>"

text \<open>One iteration of the loop of \<^verbatim>\<open>_update_baselines\<close>: the stored baseline of the
  metric (its target when none is stored yet) moves a tenth of the way to the value.\<close>

definition update_baseline ::
  "PerformanceMetric \<Rightarrow> (string \<rightharpoonup> (string \<rightharpoonup> real)) \<Rightarrow> (string \<rightharpoonup> (string \<rightharpoonup> real))" where
  "update_baseline metric bl =
     (let system = system_name metric;
          inner = (case bl system of None \<Rightarrow> Map.empty | Some d \<Rightarrow> d);
          current_baseline = (case inner (metric_name metric) of
                                None \<Rightarrow> target metric | Some b \<Rightarrow> b);
          new_baseline = (current_baseline * 0.9) + (value metric * 0.1)
      in bl(system \<mapsto> inner(metric_name metric \<mapsto> new_baseline)))"

definition update_baselines :: "SelfImprovementSystem \<Rightarrow> SelfImprovementSystem" where
  "update_baselines s =
     (if length (performance_history s) < 100 then s
      else
        let recent_metrics = last_n 100 (performance_history s) in
        s\<lparr>system_baselines := fold update_baseline recent_metrics (system_baselines s)\<rparr>)"

text \<open>\<^verbatim>\<open>_train_models\<close> prints and sleeps; it changes nothing.\<close>

definition train_models :: "SelfImprovementSystem \<Rightarrow> SelfImprovementSystem" where
  "train_models s = s"

section \<open>The adaptation cycle and the update tick\<close>

text \<open>\<^verbatim>\<open>_perform_adaptation\<close>. The analysis can raise on a zero target; the cycle counter
  has been incremented by then.\<close>

definition perform_adaptation ::
  "real \<Rightarrow> SelfImprovementSystem \<Rightarrow> SelfImprovementSystem \<times> error option" where
  "perform_adaptation now s =
     (let s1 = s\<lparr>stats := (stats s)\<lparr>learning_cycles := learning_cycles (stats s) + 1\<rparr>\<rparr> in
      case analyze_performance s1 of
        Inl e \<Rightarrow> (s1, Some e)
      | Inr performance_analysis \<Rightarrow>
          let s2 = (if overall_performance performance_analysis
                        < optimization_threshold (settings s1)
                    then apply_optimizations now performance_analysis s1 else s1);
              s3 = update_baselines s2;
              s4 = train_models s3
          in (s4, None))"

text \<open>The readings of the clock and the simulated application met by one \<^verbatim>\<open>update\<close>.\<close>

record tick_inputs =
  current_time :: real
  enqueue_time :: real
  outcome :: simulation
  applied_time :: real
  suggestion_time :: real

definition update :: "tick_inputs \<Rightarrow> SelfImprovementSystem \<Rightarrow> SelfImprovementSystem \<times> error option" where
  "update inp s =
     (case (if current_time inp - last_adaptation_time s > adaptation_interval (settings s)
            then (case perform_adaptation (enqueue_time inp) s of
                    (s', Some e) \<Rightarrow> (s', Some e)
                  | (s', None) \<Rightarrow> (s'\<lparr>last_adaptation_time := current_time inp\<rparr>, None))
            else (s, None)) of
        (s1, Some e) \<Rightarrow> (s1, Some e)
      | (s1, None) \<Rightarrow>
          let s2 = process_optimization_queue (outcome inp) (applied_time inp) s1 in
          (case update_performance_trends s2 of
             (s3, Some e) \<Rightarrow> (s3, Some e)
           | (s3, None) \<Rightarrow>
               (if enable_autonomous_optimization (settings s3)
                then generate_improvement_suggestions (suggestion_time inp) s3 else s3,
                None)))"

text \<open>Successive calls of \<^verbatim>\<open>update\<close>. The caller (the engine's \<^verbatim>\<open>_update_systems\<close>) catches
  an exception and calls again at the next frame, on the object as the failed call left it.\<close>

fun updates :: "tick_inputs list \<Rightarrow> SelfImprovementSystem \<Rightarrow> SelfImprovementSystem" where
  "updates [] s = s"
| "updates (inp # inps) s = updates inps (fst (update inp s))"

section \<open>Performance rating\<close>

text \<open>The generator sum of \<^verbatim>\<open>get_performance_rating\<close>, left to right from 0.\<close>

fun sum_ratios :: "PerformanceMetric list \<Rightarrow> real \<Rightarrow> error + real" where
  "sum_ratios [] acc = Inr acc"
| "sum_ratios (metric # rest) acc =
     (if target metric = 0 then Inl ZeroDivisionError
      else sum_ratios rest (acc + value metric / target metric))"

definition get_performance_rating :: "SelfImprovementSystem \<Rightarrow> error + real" where
  "get_performance_rating s =
     (if performance_history s = [] then Inr 1
      else
        let recent_metrics = last_n 50 (performance_history s) in
        if recent_metrics = [] then Inr 1
        else
          case sum_ratios recent_metrics 0 of
            Inl e \<Rightarrow> Inl e
          | Inr total_performance \<Rightarrow>
              let avg_performance = total_performance / real (length recent_metrics);
                  rating = max 0 (min 1 avg_performance)
              in Inr rating)"

section \<open>The engine and its frame loop\<close>

datatype EngineState = STOPPED | RUNNING | PAUSED | ERROR

record SystemInfo =
  info_name :: string
  version :: string
  status :: string
  performance :: real

text \<open>The dictionary stored per frame by \<^verbatim>\<open>_main_loop\<close>.\<close>

record FrameMetrics =
  fm_frame_time :: real
  fm_fps :: real
  fm_frame_number :: int

text \<open>\<^verbatim>\<open>GameEngine\<close>. The dictionaries keep insertion order, so they are association lists.
  The registered system objects are external; what their \<^verbatim>\<open>update\<close> does in a frame is an
  input of that frame.\<close>

record GameEngine =
  state :: EngineState
  system_info :: "(string \<times> SystemInfo) list"
  frame_rate :: real
  frame_time :: real
  last_frame_time :: real
  current_frame :: int
  performance_metrics :: "(int \<times> FrameMetrics) list"
  engine_learning_rate :: real
  adaptation_enabled :: bool


definition register_system :: "string \<Rightarrow> string \<Rightarrow> GameEngine \<Rightarrow> GameEngine" where
  "register_system n v e =
     e\<lparr>system_info := AList.update n
          \<lparr>info_name = n, version = v, status = ''initialized'', performance = 1\<rparr>
          (system_info e)\<rparr>"


definition stop :: "GameEngine \<Rightarrow> GameEngine" where
  "stop e = e\<lparr>state := STOPPED\<rparr>"

definition pause :: "GameEngine \<Rightarrow> GameEngine" where
  "pause e = (if state e = RUNNING then e\<lparr>state := PAUSED\<rparr> else e)"

definition resume :: "real \<Rightarrow> GameEngine \<Rightarrow> GameEngine" where
  "resume now e =
     (if state e = PAUSED then e\<lparr>state := RUNNING, last_frame_time := now\<rparr> else e)"

text \<open>What a registered system does when the loop reaches it: it has no \<^verbatim>\<open>update\<close>
  attribute, its \<^verbatim>\<open>update\<close> returns, or its \<^verbatim>\<open>update\<close> raises. After an \<^verbatim>\<open>update\<close> that
  returns, the division by \<open>frame_time * 0.9\<close> stands inside the same \<^verbatim>\<open>try\<close>: when the
  divisor is 0 it raises, and the \<^verbatim>\<open>except\<close> branch marks the system as it does for a
  failed \<^verbatim>\<open>update\<close>.\<close>

datatype system_step = NoUpdate | Updated | UpdateRaised

definition update_systems :: "(string \<Rightarrow> system_step) \<Rightarrow> GameEngine \<Rightarrow> GameEngine" where
  "update_systems steps e =
     e\<lparr>system_info :=
         map (\<lambda>(n, info).
                (n, case steps n of
                      NoUpdate \<Rightarrow> info
                    | Updated \<Rightarrow>
                        if frame_time e * 0.9 = 0 then info\<lparr>status := ''error''\<rparr>
                        else info\<lparr>performance := min 1 (1 / (frame_time e * 0.9))\<rparr>
                    | UpdateRaised \<Rightarrow> info\<lparr>status := ''error''\<rparr>))
           (system_info e)\<rparr>"

definition optimize_systems :: "GameEngine \<Rightarrow> GameEngine" where
  "optimize_systems e =
     e\<lparr>system_info :=
         map (\<lambda>(n, info).
                (n, if performance info < 0.8 \<and> adaptation_enabled e
                    then
                      let improvement = min 0.2 ((1 - performance info) * 0.5) in
                      info\<lparr>performance := min 1 (performance info + improvement)\<rparr>
                    else info))
           (system_info e)\<rparr>"

text \<open>The window both readers of the frame metrics take: the values of the dictionary,
  restricted to the last 300.\<close>

definition recent_frames :: "GameEngine \<Rightarrow> FrameMetrics list" where
  "recent_frames e = last_n 300 (map snd (performance_metrics e))"

text \<open>\<^verbatim>\<open>_adapt_and_improve\<close>. The engine's own \<^verbatim>\<open>_analyze_performance\<close> only prints, from
  \<open>recent_frames\<close>, so it leaves no trace here.\<close>

definition adapt_and_improve :: "GameEngine \<Rightarrow> GameEngine" where
  "adapt_and_improve e = (if current_frame e mod 300 = 0 then optimize_systems e else e)"

record frame_inputs =
  start_time :: real
  end_time :: real
  steps :: "string \<Rightarrow> system_step"



record PerformanceStats =
  average_frame_time :: real
  average_fps :: real
  stats_current_frame :: int
  engine_state :: EngineState

definition get_performance_stats :: "GameEngine \<Rightarrow> PerformanceStats option" where
  "get_performance_stats e =
     (if performance_metrics e = [] then None
      else
        let frames = recent_frames e in
        Some \<lparr>average_frame_time =
                 sum_list (map fm_frame_time frames) / real (length frames),
               average_fps = sum_list (map fm_fps frames) / real (length frames),
               stats_current_frame = current_frame e,
               engine_state = state e\<rparr>)"

section \<open>Auxiliary definitions for the properties\<close>

text \<open>The performance ratio of a metric, as the specification calls \<open>value / target\<close>.\<close>

definition ratio :: "PerformanceMetric \<Rightarrow> real" where
  "ratio m = value m / target m"

text \<open>A call of \<^verbatim>\<open>record_performance_metric\<close> is determined by the metric it builds, so a
  sequence of calls is given by the list of these metrics.\<close>

definition record_metric :: "PerformanceMetric \<Rightarrow> SelfImprovementSystem \<Rightarrow> SelfImprovementSystem" where
  "record_metric m s =
     record_performance_metric (timestamp m) (system_name m) (metric_name m) (value m)
       (target m) (weight m) s"

definition record_all :: "PerformanceMetric list \<Rightarrow> SelfImprovementSystem \<Rightarrow> SelfImprovementSystem" where
  "record_all ms s = fold record_metric ms s"

text \<open>The effectiveness of the strategy at reference \<open>r\<close> before and after each of a
  sequence of calls of \<^verbatim>\<open>_apply_optimization_strategy\<close> on it.\<close>

fun effectiveness_trajectory ::
  "simulation list \<Rightarrow> strategy_ref \<Rightarrow> OptimizationRequest \<Rightarrow> SelfImprovementSystem \<Rightarrow> real list" where
  "effectiveness_trajectory [] r c s = [effectiveness (strategy_store s r)]"
| "effectiveness_trajectory (sim # sims) r c s =
     effectiveness (strategy_store s r)
       # effectiveness_trajectory sims r c (snd (apply_optimization_strategy sim r c s))"

text \<open>A freshly constructed system whose queue holds two requests for the rendering
  strategy (reference 0).\<close>

definition renderer_request :: OptimizationRequest where
  "renderer_request =
     \<lparr>req_strategy = 0, req_system = ''renderer'', req_severity = ''high'', req_timestamp = 1\<rparr>"

definition two_requests :: SelfImprovementSystem where
  "two_requests = init\<lparr>optimization_queue := [renderer_request, renderer_request]\<rparr>"


text \<open>Sample inputs: a metric at 40 percent of its target, one at its target, one with a
  zero target, and a frame that takes a hundredth of a second.\<close>

definition slow_metric :: PerformanceMetric where
  "slow_metric =
     \<lparr>timestamp = 0, system_name = ''renderer'', metric_name = ''frame_time'', value = 0.4,
      target = 1, weight = 1\<rparr>"

definition good_metric :: PerformanceMetric where
  "good_metric =
     \<lparr>timestamp = 0, system_name = ''physics'', metric_name = ''frame_time'', value = 2,
      target = 2, weight = 1\<rparr>"


definition zero_target_metric :: PerformanceMetric where
  "zero_target_metric =
     \<lparr>timestamp = 0, system_name = ''physics'', metric_name = ''frame_time'', value = 1,
      target = 0, weight = 1\<rparr>"

definition fair_metric :: PerformanceMetric where
  "fair_metric =
     \<lparr>timestamp = 0, system_name = ''ai_behavior'', metric_name = ''response_time'',
      value = 0.6, target = 1, weight = 1\<rparr>"

definition sample_history :: "PerformanceMetric list" where
  "sample_history =
     [slow_metric, slow_metric, fair_metric, good_metric, slow_metric, fair_metric,
      good_metric, slow_metric, fair_metric, good_metric]"

definition sample_tick :: tick_inputs where
  "sample_tick =
     \<lparr>current_time = 100, enqueue_time = 100, outcome = Draw 0.9, applied_time = 100,
      suggestion_time = 100\<rparr>"

text \<open>A tick five seconds after construction: the adaptation interval of ten seconds
  has not elapsed.\<close>

definition early_tick :: tick_inputs where
  "early_tick =
     \<lparr>current_time = 5, enqueue_time = 5, outcome = Draw 0.9, applied_time = 5,
      suggestion_time = 5\<rparr>"

subsection \<open>The analysis in the words of the specification\<close>

text \<open>The elements of a list in the order of their first occurrence.\<close>

fun first_seen :: "'a list \<Rightarrow> 'a list" where
  "first_seen [] = []"
| "first_seen (x # xs) = x # filter (\<lambda>y. y \<noteq> x) (first_seen xs)"

text \<open>The subsystems that have a metric in the window \<open>w\<close>.\<close>

definition subsystems :: "PerformanceMetric list \<Rightarrow> string list" where
  "subsystems w = first_seen (map system_name w)"

text \<open>The ratios \<open>value / target\<close> of the metrics of one subsystem in the window, and their
  mean.\<close>

definition ratios_of :: "PerformanceMetric list \<Rightarrow> string \<Rightarrow> real list" where
  "ratios_of w sys = map ratio (filter (\<lambda>m. system_name m = sys) w)"

definition mean :: "real list \<Rightarrow> real" where
  "mean vs = sum_list vs / real (length vs)"

definition mean_ratio :: "PerformanceMetric list \<Rightarrow> string \<Rightarrow> real" where
  "mean_ratio w sys = mean (ratios_of w sys)"

text \<open>The report on a bottlenecked subsystem: severity high below 0.5, medium otherwise.\<close>

definition spec_bottleneck :: "string \<Rightarrow> real \<Rightarrow> Bottleneck" where
  "spec_bottleneck sys r =
     \<lparr>bn_system = sys, bn_performance = r,
      bn_severity = (if r < 0.5 then ''high'' else ''medium'')\<rparr>"

text \<open>The analysis of a window as the specification describes it (section 4.3): the mean
  ratio of every subsystem; overall performance is the unweighted mean of these means;
  the bottlenecks are the subsystems whose mean ratio is below 0.7.\<close>

definition spec_analysis :: "PerformanceMetric list \<Rightarrow> PerformanceAnalysis" where
  "spec_analysis w =
     \<lparr>overall_performance = mean (map (mean_ratio w) (subsystems w)),
      system_performance = Some (map (\<lambda>sys. (sys, mean_ratio w sys)) (subsystems w)),
      bottlenecks =
        map (\<lambda>sys. spec_bottleneck sys (mean_ratio w sys))
          (filter (\<lambda>sys. mean_ratio w sys < 0.7) (subsystems w))\<rparr>"

subsection \<open>Runs of adaptation cycles and baselines\<close>

text \<open>Successive calls of \<^verbatim>\<open>_perform_adaptation\<close>, one per reading of the clock. A cycle
  that raises leaves the object as it was at the raise, and the next cycle runs on it.\<close>

fun adaptation_cycles :: "real list \<Rightarrow> SelfImprovementSystem \<Rightarrow> SelfImprovementSystem" where
  "adaptation_cycles [] s = s"
| "adaptation_cycles (now # nows) s = adaptation_cycles nows (fst (perform_adaptation now s))"

text \<open>The stored baseline of a (subsystem, metric) pair, if any.\<close>

definition baseline_of ::
  "(string \<rightharpoonup> (string \<rightharpoonup> real)) \<Rightarrow> string \<Rightarrow> string \<Rightarrow> real option" where
  "baseline_of bl sys mn = (case bl sys of None \<Rightarrow> None | Some d \<Rightarrow> d mn)"

subsection \<open>The adaptation step of a tick\<close>

text \<open>The test at the head of \<^verbatim>\<open>update\<close>: the adaptation interval has elapsed.\<close>

definition adaptation_due :: "tick_inputs \<Rightarrow> SelfImprovementSystem \<Rightarrow> bool" where
  "adaptation_due inp s \<longleftrightarrow>
     current_time inp - last_adaptation_time s > adaptation_interval (settings s)"

text \<open>The first statement of \<^verbatim>\<open>update\<close>, up to the call that drains the queue: the object
  after it, and the exception if the adaptation raised.\<close>

definition tick_adaptation ::
  "tick_inputs \<Rightarrow> SelfImprovementSystem \<Rightarrow> SelfImprovementSystem \<times> error option" where
  "tick_adaptation inp s =
     (if adaptation_due inp s
      then (case perform_adaptation (enqueue_time inp) s of
              (s', Some e) \<Rightarrow> (s', Some e)
            | (s', None) \<Rightarrow> (s'\<lparr>last_adaptation_time := current_time inp\<rparr>, None))
      else (s, None))"

text \<open>A run of ticks during which no request is enqueued: in every tick the adaptation
  step returns and leaves the queue as it found it.\<close>

fun quiet_ticks :: "tick_inputs list \<Rightarrow> SelfImprovementSystem \<Rightarrow> bool" where
  "quiet_ticks [] s = True"
| "quiet_ticks (inp # inps) s =
     (snd (tick_adaptation inp s) = None
      \<and> optimization_queue (fst (tick_adaptation inp s)) = optimization_queue s
      \<and> quiet_ticks inps (fst (update inp s)))"

section \<open>Slices and association lists\<close>

lemma last_n_length: "length (last_n n xs) \<le> n"
  by (simp add: last_n_def)

lemma last_n_append_last_n: "last_n n (last_n n xs @ ys) = last_n n (xs @ ys)"
  by (cases "n \<le> length xs") (simp_all add: last_n_def add.commute)

lemma last_n_Nil_iff: "0 < n \<Longrightarrow> last_n n xs = [] \<longleftrightarrow> xs = []"
  by (cases xs) (auto simp: last_n_def)

lemma update_fresh: "k \<notin> fst ` set al \<Longrightarrow> AList.update k v al = al @ [(k, v)]"
  by (induction al) auto

section \<open>The metric history is bounded and first-in first-out\<close>

lemma record_metric_history:
  "performance_history (record_metric m s) =
     (if int (length (performance_history s)) + 1 > performance_history_size (settings s)
      then tl (performance_history s @ [m]) else performance_history s @ [m])"
  by (cases m) (simp add: record_metric_def record_performance_metric_def Let_def)

lemma record_metric_settings: "settings (record_metric m s) = settings s"
  by (simp add: record_metric_def record_performance_metric_def Let_def)

lemma record_metric_last_n:
  assumes "int (length (performance_history s)) \<le> performance_history_size (settings s)"
  shows "performance_history (record_metric m s) =
           last_n (nat (performance_history_size (settings s))) (performance_history s @ [m])"
proof (cases "int (length (performance_history s)) + 1 > performance_history_size (settings s)")
  case True
  with assms have eq: "nat (performance_history_size (settings s)) = length (performance_history s)"
    by linarith
  show ?thesis using True
    by (cases "performance_history s") (simp_all add: record_metric_history last_n_def eq)
next
  case False
  then have "length (performance_history s) + 1 \<le> nat (performance_history_size (settings s))"
    by linarith
  then show ?thesis using False
    by (simp add: record_metric_history last_n_def)
qed

lemma record_all_last_n:
  "int (length (performance_history s)) \<le> performance_history_size (settings s) \<Longrightarrow>
   performance_history (record_all ms s) =
     last_n (nat (performance_history_size (settings s))) (performance_history s @ ms)
   \<and> settings (record_all ms s) = settings s"
proof (induction ms arbitrary: s)
  case Nil
  then show ?case by (simp add: record_all_def last_n_def)
next
  case (Cons m ms)
  let ?n = "nat (performance_history_size (settings s))"
  have h1: "performance_history (record_metric m s) = last_n ?n (performance_history s @ [m])"
    using Cons.prems by (rule record_metric_last_n)
  have "int (length (performance_history (record_metric m s)))
          \<le> performance_history_size (settings s)"
    using Cons.prems last_n_length[of ?n "performance_history s @ [m]"] unfolding h1
    by linarith
  then have "int (length (performance_history (record_metric m s)))
               \<le> performance_history_size (settings (record_metric m s))"
    by (simp add: record_metric_settings)
  from Cons.IH[OF this] show ?case
    by (simp add: record_all_def record_metric_settings h1 last_n_append_last_n)
qed

text \<open>
  Claim C7. Starting from a history within the configured size (the constructor's empty
  history is), after any sequence of \<^verbatim>\<open>record_performance_metric\<close> calls the history
  holds at most \<open>performance_history_size\<close> entries. It consists of the most recent
  entries of everything recorded, in the order of recording: whenever a call would exceed
  the bound, the oldest entry of the extended history is the one dropped.
\<close>

theorem history_bounded_fifo:
  assumes "int (length (performance_history s)) \<le> performance_history_size (settings s)"
  shows "int (length (performance_history (record_all ms s)))
           \<le> performance_history_size (settings s)
       \<and> performance_history (record_all ms s) =
           last_n (nat (performance_history_size (settings s))) (performance_history s @ ms)
       \<and> performance_history (record_metric m s) =
           (if int (length (performance_history s)) + 1 > performance_history_size (settings s)
            then tl (performance_history s @ [m]) else performance_history s @ [m])"
proof -
  let ?n = "nat (performance_history_size (settings s))"
  have eq: "performance_history (record_all ms s) = last_n ?n (performance_history s @ ms)"
    using record_all_last_n[OF assms] by simp
  have "length (performance_history (record_all ms s)) \<le> ?n"
    unfolding eq by (rule last_n_length)
  moreover have "0 \<le> performance_history_size (settings s)"
    using assms by linarith
  ultimately have "int (length (performance_history (record_all ms s)))
                     \<le> performance_history_size (settings s)"
    by linarith
  then show ?thesis using eq record_metric_history[of m s] by simp
qed

theorem history_bounded_fifo_witness:
  "performance_history
     (record_all [slow_metric, good_metric, good_metric, slow_metric]
        (init\<lparr>settings := default_settings\<lparr>performance_history_size := 3\<rparr>\<rparr>))
   = [good_metric, good_metric, slow_metric]"
  using history_bounded_fifo
    [of "init\<lparr>settings := default_settings\<lparr>performance_history_size := 3\<rparr>\<rparr>"
        "[slow_metric, good_metric, good_metric, slow_metric]"]
  by (simp add: init_def last_n_def)

section \<open>Insufficient data\<close>

text \<open>
  Claim C8. With fewer than 10 samples in the history, \<^verbatim>\<open>_analyze_performance\<close> returns
  normally, with overall performance exactly 1 and no bottleneck.
\<close>

theorem insufficient_data_is_healthy:
  assumes "length (performance_history s) < 10"
  shows "analyze_performance s =
           Inr \<lparr>overall_performance = 1, system_performance = None, bottlenecks = []\<rparr>"
  using assms by (simp add: analyze_performance_def)

theorem insufficient_data_is_healthy_witness:
  "analyze_performance (init\<lparr>performance_history := replicate 9 slow_metric\<rparr>) =
     Inr \<lparr>overall_performance = 1, system_performance = None, bottlenecks = []\<rparr>"
  using insufficient_data_is_healthy [of "init\<lparr>performance_history := replicate 9 slow_metric\<rparr>"]
  by simp

section \<open>The performance rating\<close>

lemma sum_ratios_eq:
  "\<forall>m\<in>set ms. target m \<noteq> 0 \<Longrightarrow> sum_ratios ms acc = Inr (acc + sum_list (map ratio ms))"
  by (induction ms arbitrary: acc) (simp_all add: ratio_def)

lemma sum_ratios_zero:
  "\<exists>m\<in>set ms. target m = 0 \<Longrightarrow> sum_ratios ms acc = Inl ZeroDivisionError"
  by (induction ms arbitrary: acc) auto

lemma rating_raises:
  assumes "\<exists>m\<in>set (last_n 50 (performance_history s)). target m = 0"
  shows "get_performance_rating s = Inl ZeroDivisionError"
proof -
  have ne: "last_n 50 (performance_history s) \<noteq> []" using assms by auto
  then have "performance_history s \<noteq> []" by (auto simp: last_n_def)
  with ne show ?thesis
    by (simp add: get_performance_rating_def Let_def sum_ratios_zero[OF assms])
qed

text \<open>
  Claim C10, as the code has it. The rating is not always returned: a metric with target
  0 among the most recent 50 makes the call raise \<open>ZeroDivisionError\<close>.
\<close>

theorem rating_raises_on_zero_target:
  "get_performance_rating (record_performance_metric 0 ''physics'' ''frame_time'' 1 0 1 init)
     = Inl ZeroDivisionError"
  by (simp add: get_performance_rating_def record_performance_metric_def init_def
        default_settings_def last_n_def Let_def)

text \<open>
  Claim C10, amended. When none of the most recent (up to 50) metrics has target 0,
  \<^verbatim>\<open>get_performance_rating\<close> returns a value in \<open>[0, 1]\<close>: exactly 1 for an empty
  history, and otherwise the mean of \<open>value / target\<close> over these metrics, clamped
  into \<open>[0, 1]\<close>. When one of them has target 0, the call raises
  \<open>ZeroDivisionError\<close>.
\<close>

theorem rating_in_unit_interval:
  "((\<forall>m\<in>set (last_n 50 (performance_history s)). target m \<noteq> 0) \<longrightarrow>
      (\<exists>r. get_performance_rating s = Inr r \<and> 0 \<le> r \<and> r \<le> 1 \<and>
           r = (if performance_history s = [] then 1
                else max 0 (min 1 (sum_list (map ratio (last_n 50 (performance_history s)))
                                     / real (length (last_n 50 (performance_history s))))))))
   \<and> ((\<exists>m\<in>set (last_n 50 (performance_history s)). target m = 0) \<longrightarrow>
        get_performance_rating s = Inl ZeroDivisionError)"
proof (intro conjI impI)
  assume "\<forall>m\<in>set (last_n 50 (performance_history s)). target m \<noteq> 0"
  then show "\<exists>r. get_performance_rating s = Inr r \<and> 0 \<le> r \<and> r \<le> 1 \<and>
           r = (if performance_history s = [] then 1
                else max 0 (min 1 (sum_list (map ratio (last_n 50 (performance_history s)))
                                     / real (length (last_n 50 (performance_history s))))))"
    by (simp add: get_performance_rating_def Let_def sum_ratios_eq last_n_Nil_iff)
next
  assume "\<exists>m\<in>set (last_n 50 (performance_history s)). target m = 0"
  then show "get_performance_rating s = Inl ZeroDivisionError"
    by (rule rating_raises)
qed

theorem rating_in_unit_interval_witness:
  "get_performance_rating (init\<lparr>performance_history := [slow_metric, good_metric]\<rparr>) = Inr 0.7
   \<and> get_performance_rating
       (init\<lparr>performance_history := [good_metric, zero_target_metric, good_metric]\<rparr>)
     = Inl ZeroDivisionError"
  using rating_in_unit_interval [of "init\<lparr>performance_history := [slow_metric, good_metric]\<rparr>"]
        rating_in_unit_interval
          [of "init\<lparr>performance_history := [good_metric, zero_target_metric, good_metric]\<rparr>"]
  by (auto simp: last_n_def ratio_def slow_metric_def good_metric_def zero_target_metric_def)

section \<open>Effectiveness of a strategy\<close>

lemma apply_effectiveness:
  "effectiveness (strategy_store (snd (apply_optimization_strategy sim r c s)) r) =
     (case sim of
        Raises \<Rightarrow> effectiveness (strategy_store s r)
      | Draw d \<Rightarrow> if d > 0.3 then min 1 (effectiveness (strategy_store s r) + 0.1)
                  else max 0 (effectiveness (strategy_store s r) - 0.05))"
  by (simp add: apply_optimization_strategy_def Let_def split: simulation.splits)

lemma apply_effectiveness_bounds:
  assumes "0 \<le> effectiveness (strategy_store s r)" "effectiveness (strategy_store s r) \<le> 1"
  shows "0 \<le> effectiveness (strategy_store (snd (apply_optimization_strategy sim r c s)) r)
       \<and> effectiveness (strategy_store (snd (apply_optimization_strategy sim r c s)) r) \<le> 1"
  using assms by (simp add: apply_effectiveness split: simulation.splits)

lemma trajectory_bounds:
  "0 \<le> effectiveness (strategy_store s r) \<Longrightarrow> effectiveness (strategy_store s r) \<le> 1 \<Longrightarrow>
   \<forall>e\<in>set (effectiveness_trajectory sims r c s). 0 \<le> e \<and> e \<le> 1"
proof (induction sims arbitrary: s)
  case Nil
  then show ?case by simp
next
  case (Cons sim sims)
  from apply_effectiveness_bounds[OF Cons.prems, of sim c]
  have "\<forall>e\<in>set (effectiveness_trajectory sims r c (snd (apply_optimization_strategy sim r c s))).
          0 \<le> e \<and> e \<le> 1"
    by (intro Cons.IH) simp_all
  with Cons.prems show ?case by simp
qed

text \<open>
  Claim C4. From a starting effectiveness in \<open>[0, 1]\<close>, the effectiveness of a strategy
  stays in \<open>[0, 1]\<close> after every step of any finite sequence of applications; a
  successful draw adds 0.1 and clamps at 1, a failed draw subtracts 0.05 and clamps at 0.
  The draws success, success, failure, success, success from effectiveness 0 give the
  trajectory 0, 0.1, 0.2, 0.15, 0.25, 0.35.
\<close>

theorem effectiveness_stays_in_unit_interval:
  "(0 \<le> effectiveness (strategy_store s r) \<and> effectiveness (strategy_store s r) \<le> 1 \<longrightarrow>
      (\<forall>e\<in>set (effectiveness_trajectory sims r c s). 0 \<le> e \<and> e \<le> 1))
   \<and> effectiveness (strategy_store (snd (apply_optimization_strategy (Draw d) r c s)) r) =
       (if d > 0.3 then min 1 (effectiveness (strategy_store s r) + 0.1)
        else max 0 (effectiveness (strategy_store s r) - 0.05))
   \<and> effectiveness_trajectory [Draw 0.5, Draw 0.9, Draw 0.1, Draw 0.31, Draw 0.7] 0 c init
       = [0, 0.1, 0.2, 0.15, 0.25, 0.35]"
proof -
  have "effectiveness_trajectory [Draw 0.5, Draw 0.9, Draw 0.1, Draw 0.31, Draw 0.7] 0 c init
          = [0, 0.1, 0.2, 0.15, 0.25, 0.35]"
    by (simp add: apply_optimization_strategy_def init_def default_strategies_def
          new_strategy_def Let_def)
  then show ?thesis
    using trajectory_bounds[of s r sims c] by (simp add: apply_effectiveness)
qed

theorem effectiveness_stays_in_unit_interval_witness:
  "effectiveness (strategy_store init 0) = 0
   \<and> effectiveness_trajectory [Draw 0.1, Draw 0.9, Raises, Draw 0.2] 0 renderer_request init
       = [0, 0, 0.1, 0.1, 0.05]"
  using effectiveness_stays_in_unit_interval
    [of init 0 "[Draw 0.1, Draw 0.9, Raises, Draw 0.2]" renderer_request]
  by (simp add: apply_optimization_strategy_def init_def default_strategies_def
        new_strategy_def Let_def)

section \<open>Processing the queue\<close>

lemma process_queue_tl:
  "optimization_queue (process_optimization_queue sim now s) = tl (optimization_queue s)"
  by (cases "optimization_queue s"; cases sim)
     (simp_all add: process_optimization_queue_def apply_optimization_strategy_def Let_def)

lemma process_queue_history:
  "performance_history (process_optimization_queue sim now s) = performance_history s"
  by (cases "optimization_queue s"; cases sim)
     (simp_all add: process_optimization_queue_def apply_optimization_strategy_def Let_def)

text \<open>What one call does to the strategy of the request at the head of the queue and to the
  counters, for a successful draw, a failed draw and a caught exception.\<close>

lemma process_success:
  assumes "optimization_queue s = q # rest" "d > 0.3"
  shows "let s' = process_optimization_queue (Draw d) now s; r = req_strategy q in
         effectiveness (strategy_store s' r) = min 1 (effectiveness (strategy_store s r) + 0.1)
       \<and> application_count (strategy_store s' r) = application_count (strategy_store s r) + 1
       \<and> last_applied (strategy_store s' r) = now
       \<and> optimizations_applied (stats s') = optimizations_applied (stats s) + 1
       \<and> failed_optimizations (stats s') = failed_optimizations (stats s)"
  using assms
  by (simp add: process_optimization_queue_def apply_optimization_strategy_def Let_def)

lemma process_failed_draw:
  assumes "optimization_queue s = q # rest" "d \<le> 0.3"
  shows "let s' = process_optimization_queue (Draw d) now s; r = req_strategy q in
         effectiveness (strategy_store s' r) = max 0 (effectiveness (strategy_store s r) - 0.05)
       \<and> application_count (strategy_store s' r) = application_count (strategy_store s r) + 1
       \<and> last_applied (strategy_store s' r) = now
       \<and> optimizations_applied (stats s') = optimizations_applied (stats s) + 1
       \<and> failed_optimizations (stats s') = failed_optimizations (stats s)"
  using assms
  by (simp add: process_optimization_queue_def apply_optimization_strategy_def Let_def)

lemma process_raises:
  assumes "optimization_queue s = q # rest"
  shows "let s' = process_optimization_queue Raises now s in
         strategy_store s' = strategy_store s
       \<and> optimizations_applied (stats s') = optimizations_applied (stats s)
       \<and> failed_optimizations (stats s') = failed_optimizations (stats s) + 1"
  using assms
  by (simp add: process_optimization_queue_def apply_optimization_strategy_def Let_def)

text \<open>
  Claim C1, evaluated on the code. Two requests for the rendering strategy are processed;
  the first draw (0.9) succeeds and the second (0.1) fails. The failed draw lowers the
  effectiveness from 0.1 to 0.05, and yet it is counted as an applied optimization: the
  success counter and the application count stand at 2, \<open>last_applied\<close> is the time of the
  second call, and the failure counter is still 0.
\<close>

theorem failed_draw_counted_as_success:
  "(let s = process_optimization_queue (Draw 0.1) 3
              (process_optimization_queue (Draw 0.9) 2 two_requests)
    in (effectiveness (strategy_store s 0), application_count (strategy_store s 0),
        last_applied (strategy_store s 0),
        optimizations_applied (stats s), failed_optimizations (stats s)))
   = (0.05, 2, 3, 2, 0)"
  by (simp add: two_requests_def renderer_request_def process_optimization_queue_def
        apply_optimization_strategy_def init_def default_strategies_def new_strategy_def
        default_stats_def Let_def)

section \<open>The frame metrics of the engine\<close>

lemma update_systems_fields [simp]:
  "state (update_systems st e) = state e"
  "current_frame (update_systems st e) = current_frame e"
  "performance_metrics (update_systems st e) = performance_metrics e"
  "adaptation_enabled (update_systems st e) = adaptation_enabled e"
  by (simp_all add: update_systems_def)

lemma adapt_and_improve_fields [simp]:
  "state (adapt_and_improve e) = state e"
  "current_frame (adapt_and_improve e) = current_frame e"
  "performance_metrics (adapt_and_improve e) = performance_metrics e"
  by (simp_all add: adapt_and_improve_def optimize_systems_def)







section \<open>The analysis is a two-level mean\<close>

lemma set_first_seen [simp]: "set (first_seen xs) = set xs"
  by (induction xs) auto

lemma distinct_first_seen [simp]: "distinct (first_seen xs)"
  by (induction xs) auto

lemma set_subsystems: "set (subsystems w) = system_name ` set w"
  by (simp add: subsystems_def)

lemma distinct_subsystems: "distinct (subsystems w)"
  by (simp add: subsystems_def)

lemma subsystems_Cons:
  "subsystems (m # ms) = system_name m # filter (\<lambda>y. y \<noteq> system_name m) (subsystems ms)"
  by (simp add: subsystems_def)

lemma ratios_of_Cons:
  "ratios_of (m # ms) k =
     (if system_name m = k then value m / target m # ratios_of ms k else ratios_of ms k)"
  by (simp add: ratios_of_def ratio_def)

lemma map_entry_distinct:
  "distinct (map fst al) \<Longrightarrow>
   AList.map_entry k f al = map (\<lambda>(k', v). (k', if k' = k then f v else v)) al"
proof (induction al)
  case Nil
  then show ?case by simp
next
  case (Cons p ps)
  show ?case
  proof (cases "fst p = k")
    case True
    with Cons.prems have "k \<notin> fst ` set ps" by auto
    then have "map (\<lambda>(k', v). (k', if k' = k then f v else v)) ps = ps"
      by (induction ps) auto
    with True show ?thesis by (cases p) simp
  next
    case False
    with Cons show ?thesis by (cases p) simp
  qed
qed

lemma map_entry_keys: "map fst (AList.map_entry k f al) = map fst al"
  by (induction al) auto

lemma map_entry_fresh:
  "k \<notin> fst ` set al \<Longrightarrow> AList.map_entry k f (al @ [(k, v)]) = al @ [(k, f v)]"
  by (induction al) auto

lemma group_ratios_eq:
  assumes "\<forall>m\<in>set ms. target m \<noteq> 0" "distinct (map fst sp)"
  shows "group_ratios ms sp =
           Inr (map (\<lambda>(k, vs). (k, vs @ ratios_of ms k)) sp
                @ map (\<lambda>k. (k, ratios_of ms k))
                    (filter (\<lambda>k. k \<notin> fst ` set sp) (subsystems ms)))"
  using assms
proof (induction ms arbitrary: sp)
  case Nil
  then show ?case by (simp add: subsystems_def ratios_of_def)
next
  case (Cons m ms)
  let ?k = "system_name m"
  let ?r = "value m / target m"
  have t: "\<forall>m\<in>set ms. target m \<noteq> 0" "target m \<noteq> 0" using Cons.prems(1) by simp_all
  show ?case
  proof (cases "?k \<in> fst ` set sp")
    case True
    let ?sp' = "AList.map_entry ?k (\<lambda>values. values @ [?r]) sp"
    have sp': "?sp' = map (\<lambda>(k', v). (k', if k' = ?k then v @ [?r] else v)) sp"
      using Cons.prems(2) by (rule map_entry_distinct)
    have d': "distinct (map fst ?sp')" using Cons.prems(2) by (simp add: map_entry_keys)
    have keyset: "fst ` set ?sp' = fst ` set sp"
      using map_entry_keys[of ?k "\<lambda>values. values @ [?r]" sp] by (metis image_set)
    have step: "group_ratios (m # ms) sp = group_ratios ms ?sp'"
      using t(2) True by (simp add: Let_def)
    have a: "map (\<lambda>(k, vs). (k, vs @ ratios_of ms k)) ?sp'
               = map (\<lambda>(k, vs). (k, vs @ ratios_of (m # ms) k)) sp"
      unfolding sp' by (simp add: ratios_of_Cons case_prod_unfold)
    have b: "filter (\<lambda>k. k \<notin> fst ` set sp) (subsystems (m # ms))
               = filter (\<lambda>k. k \<notin> fst ` set sp) (subsystems ms)"
      using True by (auto simp: subsystems_Cons intro!: filter_cong)
    have c: "map (\<lambda>k. (k, ratios_of (m # ms) k)) (filter (\<lambda>k. k \<notin> fst ` set sp) (subsystems ms))
               = map (\<lambda>k. (k, ratios_of ms k)) (filter (\<lambda>k. k \<notin> fst ` set sp) (subsystems ms))"
      using True by (auto simp: ratios_of_Cons)
    show ?thesis
      unfolding step Cons.IH[OF t(1) d'] keyset a b c ..
  next
    case False
    let ?sp' = "sp @ [(?k, [?r])]"
    have d': "distinct (map fst ?sp')" using Cons.prems(2) False by auto
    have step: "group_ratios (m # ms) sp = group_ratios ms ?sp'"
      using t(2) False by (simp add: Let_def map_entry_fresh)
    have a: "map (\<lambda>(k, vs). (k, vs @ ratios_of ms k)) sp
               = map (\<lambda>(k, vs). (k, vs @ ratios_of (m # ms) k)) sp"
    proof (rule map_cong[OF refl])
      fix p assume "p \<in> set sp"
      then have "fst p \<noteq> ?k" using False by (metis imageI)
      then show "(case p of (k, vs) \<Rightarrow> (k, vs @ ratios_of ms k))
                   = (case p of (k, vs) \<Rightarrow> (k, vs @ ratios_of (m # ms) k))"
        by (cases p) (simp add: ratios_of_Cons)
    qed
    have b: "filter (\<lambda>k. k \<notin> fst ` set sp) (subsystems (m # ms))
               = ?k # filter (\<lambda>k. k \<notin> fst ` set ?sp') (subsystems ms)"
      using False by (auto simp: subsystems_Cons intro!: filter_cong)
    have c: "map (\<lambda>k. (k, ratios_of (m # ms) k)) (filter (\<lambda>k. k \<notin> fst ` set ?sp') (subsystems ms))
               = map (\<lambda>k. (k, ratios_of ms k)) (filter (\<lambda>k. k \<notin> fst ` set ?sp') (subsystems ms))"
      by (auto simp: ratios_of_Cons)
    show ?thesis
      unfolding step Cons.IH[OF t(1) d'] b
      using a c by (simp add: ratios_of_Cons)
  qed
qed


lemma average_systems_eq:
  assumes "distinct (map fst gs)" "\<forall>p\<in>set gs. snd p \<noteq> []"
    and "fst ` set gs \<inter> fst ` set sa = {}"
  shows "average_systems gs sa bs =
           Inr (sa @ map (\<lambda>p. (fst p, mean (snd p))) gs,
                bs @ map (\<lambda>p. spec_bottleneck (fst p) (mean (snd p)))
                       (filter (\<lambda>p. mean (snd p) < 0.7) gs))"
  using assms
proof (induction gs arbitrary: sa bs)
  case Nil
  then show ?case by simp
next
  case (Cons g gs)
  obtain k vs where g: "g = (k, vs)" by (cases g)
  have vs: "vs \<noteq> []" using Cons.prems(2) g by simp
  have fresh: "k \<notin> fst ` set sa" using Cons.prems(3) g by auto
  let ?sa' = "sa @ [(k, mean vs)]"
  have d: "distinct (map fst gs)" "\<forall>p\<in>set gs. snd p \<noteq> []"
    using Cons.prems(1,2) by simp_all
  have disj: "fst ` set gs \<inter> fst ` set ?sa' = {}"
    using Cons.prems(1,3) g by auto
  show ?case
    using vs Cons.IH[OF d disj]
    by (simp add: g Let_def update_fresh[OF fresh] mean_def spec_bottleneck_def)
qed

lemma analyze_performance_spec:
  assumes "10 \<le> length (performance_history s)"
    and "\<forall>m\<in>set (last_n 100 (performance_history s)). target m \<noteq> 0"
  shows "analyze_performance s = Inr (spec_analysis (last_n 100 (performance_history s)))"
proof -
  let ?w = "last_n 100 (performance_history s)"
  let ?gs = "map (\<lambda>k. (k, ratios_of ?w k)) (subsystems ?w)"
  have g: "group_ratios ?w [] = Inr ?gs"
    using group_ratios_eq[OF assms(2), of "[]"] by simp
  have d: "distinct (map fst ?gs)"
    by (simp add: comp_def distinct_subsystems)
  have ne: "\<forall>p\<in>set ?gs. snd p \<noteq> []"
    by (auto simp: set_subsystems ratios_of_def filter_empty_conv)
  have a: "average_systems ?gs [] [] =
             Inr (map (\<lambda>k. (k, mean_ratio ?w k)) (subsystems ?w),
                  map (\<lambda>k. spec_bottleneck k (mean_ratio ?w k))
                    (filter (\<lambda>k. mean_ratio ?w k < 0.7) (subsystems ?w)))"
    using average_systems_eq[OF d ne, of "[]" "[]"]
    by (simp add: comp_def filter_map mean_def mean_ratio_def)
  have "performance_history s \<noteq> []" using assms(1) by auto
  then have "?w \<noteq> []" by (simp add: last_n_Nil_iff)
  then have sne: "subsystems ?w \<noteq> []"
    using set_subsystems[of ?w] by (metis empty_set image_is_empty set_empty)
  show ?thesis
    using assms(1) sne
    by (simp add: analyze_performance_def Let_def g a spec_analysis_def comp_def mean_def)
qed

text \<open>
  Claim C6. When the analysis runs (at least 10 samples) on a window whose targets are
  nonzero, so that every ratio \<open>value / target\<close> exists, its result is the analysis of
  the specification for the window of the last 100 metrics: for every subsystem of the
  window the mean of \<open>value / target\<close> over that subsystem's metrics; a bottleneck
  for exactly the subsystems whose mean is below 0.7, of severity high below 0.5 and
  medium otherwise; and as overall performance the unweighted mean of the subsystems'
  means.
\<close>

theorem analysis_is_two_level_mean:
  assumes "10 \<le> length (performance_history s)"
    and "\<forall>m\<in>set (last_n 100 (performance_history s)). target m \<noteq> 0"
  shows "analyze_performance s = Inr (spec_analysis (last_n 100 (performance_history s)))
       \<and> set (subsystems (last_n 100 (performance_history s)))
           = system_name ` set (last_n 100 (performance_history s))
       \<and> distinct (subsystems (last_n 100 (performance_history s)))"
  using analyze_performance_spec[OF assms] set_subsystems distinct_subsystems by simp

theorem analysis_is_two_level_mean_witness:
  "analyze_performance (init\<lparr>performance_history := sample_history\<rparr>) =
     Inr \<lparr>overall_performance = 2 / 3,
          system_performance =
            Some [(''renderer'', 0.4), (''ai_behavior'', 0.6), (''physics'', 1)],
          bottlenecks =
            [\<lparr>bn_system = ''renderer'', bn_performance = 0.4, bn_severity = ''high''\<rparr>,
             \<lparr>bn_system = ''ai_behavior'', bn_performance = 0.6, bn_severity = ''medium''\<rparr>]\<rparr>"
  using analysis_is_two_level_mean [of "init\<lparr>performance_history := sample_history\<rparr>"]
  by (simp add: sample_history_def slow_metric_def fair_metric_def good_metric_def last_n_def
        spec_analysis_def subsystems_def mean_ratio_def mean_def ratios_of_def ratio_def
        spec_bottleneck_def)

section \<open>A zero target makes the analysis raise\<close>

lemma group_ratios_zero:
  "\<exists>m\<in>set ms. target m = 0 \<Longrightarrow> group_ratios ms sp = Inl ZeroDivisionError"
proof (induction ms arbitrary: sp)
  case Nil
  then show ?case by simp
next
  case (Cons m ms)
  show ?case
  proof (cases "target m = 0")
    case True
    then show ?thesis by (simp add: Let_def)
  next
    case False
    with Cons.prems have "\<exists>m\<in>set ms. target m = 0" by auto
    from Cons.IH[OF this] False show ?thesis by (simp add: Let_def)
  qed
qed

lemma analysis_raises:
  assumes "10 \<le> length (performance_history s)"
    and "\<exists>m\<in>set (last_n 100 (performance_history s)). target m = 0"
  shows "analyze_performance s = Inl ZeroDivisionError"
  using assms(1) by (simp add: analyze_performance_def Let_def group_ratios_zero[OF assms(2)])

lemma analysis_returns:
  assumes "length (performance_history s) < 10
           \<or> (\<forall>m\<in>set (last_n 100 (performance_history s)). target m \<noteq> 0)"
  shows "\<exists>a. analyze_performance s = Inr a"
proof (cases "length (performance_history s) < 10")
  case True
  then show ?thesis by (simp add: analyze_performance_def)
next
  case False
  with assms have "\<forall>m\<in>set (last_n 100 (performance_history s)). target m \<noteq> 0" by simp
  with False show ?thesis using analyze_performance_spec[of s] by simp
qed

lemma adaptation_raises:
  assumes "10 \<le> length (performance_history s)"
    and "\<exists>m\<in>set (last_n 100 (performance_history s)). target m = 0"
  shows "perform_adaptation now s =
           (s\<lparr>stats := (stats s)\<lparr>learning_cycles := learning_cycles (stats s) + 1\<rparr>\<rparr>,
            Some ZeroDivisionError)"
proof -
  let ?s1 = "s\<lparr>stats := (stats s)\<lparr>learning_cycles := learning_cycles (stats s) + 1\<rparr>\<rparr>"
  have "analyze_performance ?s1 = Inl ZeroDivisionError"
    using assms by (intro analysis_raises) simp_all
  then show ?thesis by (simp add: perform_adaptation_def Let_def)
qed

lemma enqueue_for_fields [simp]:
  "performance_history (enqueue_for now b s) = performance_history s"
  "system_baselines (enqueue_for now b s) = system_baselines s"
  by (simp_all add: enqueue_for_def Let_def split: option.splits)

lemma adaptation_returns:
  assumes "length (performance_history s) < 10
           \<or> (\<forall>m\<in>set (last_n 100 (performance_history s)). target m \<noteq> 0)"
  shows "snd (perform_adaptation now s) = None"
proof -
  let ?s1 = "s\<lparr>stats := (stats s)\<lparr>learning_cycles := learning_cycles (stats s) + 1\<rparr>\<rparr>"
  have "length (performance_history ?s1) < 10
        \<or> (\<forall>m\<in>set (last_n 100 (performance_history ?s1)). target m \<noteq> 0)"
    using assms by simp
  from analysis_returns[OF this] obtain a where "analyze_performance ?s1 = Inr a" by blast
  then show ?thesis by (simp add: perform_adaptation_def Let_def)
qed

section \<open>A healthy history enqueues nothing\<close>

lemma mean_lower_bound:
  assumes "vs \<noteq> []" "\<forall>v\<in>set vs. c \<le> v"
  shows "c \<le> sum_list vs / real (length vs)"
proof -
  have "sum_list (map (\<lambda>_. c) vs) \<le> sum_list (map (\<lambda>v. v) vs)"
    using assms(2) by (intro sum_list_mono) auto
  then have "real (length vs) * c \<le> sum_list vs"
    by (simp add: sum_list_triv)
  moreover have "0 < real (length vs)" using assms(1) by simp
  ultimately show ?thesis by (simp add: pos_le_divide_eq mult.commute)
qed

lemma last_n_subset: "set (last_n n xs) \<subseteq> set xs"
  by (simp add: last_n_def set_drop_subset)

lemma healthy_no_bottleneck:
  assumes "\<forall>m\<in>set w. 0.7 \<le> ratio m"
  shows "bottlenecks (spec_analysis w) = []"
proof -
  have "0.7 \<le> mean_ratio w k" if "k \<in> set (subsystems w)" for k
  proof -
    from that have "ratios_of w k \<noteq> []"
      by (auto simp: set_subsystems ratios_of_def filter_empty_conv)
    moreover have "\<forall>v\<in>set (ratios_of w k). 0.7 \<le> v"
      using assms by (auto simp: ratios_of_def)
    ultimately show ?thesis
      unfolding mean_ratio_def mean_def by (rule mean_lower_bound)
  qed
  then have "\<forall>k\<in>set (subsystems w). \<not> mean_ratio w k < 0.7"
    by (simp add: not_less)
  then have "filter (\<lambda>sys. mean_ratio w sys < 0.7) (subsystems w) = []"
    by (simp add: filter_empty_conv)
  then show ?thesis by (simp add: spec_analysis_def)
qed

lemma healthy_analysis:
  assumes "\<forall>m\<in>set (performance_history s). 0.7 \<le> ratio m"
  shows "\<exists>a. analyze_performance s = Inr a \<and> bottlenecks a = []"
proof (cases "length (performance_history s) < 10")
  case True
  then show ?thesis by (simp add: analyze_performance_def)
next
  case False
  let ?w = "last_n 100 (performance_history s)"
  have h: "\<forall>m\<in>set ?w. 0.7 \<le> ratio m"
    using assms last_n_subset[of 100 "performance_history s"] by auto
  have "\<forall>m\<in>set ?w. target m \<noteq> 0"
  proof
    fix m assume "m \<in> set ?w"
    with h have "0.7 \<le> value m / target m" by (simp add: ratio_def)
    then show "target m \<noteq> 0" by auto
  qed
  with False have "analyze_performance s = Inr (spec_analysis ?w)"
    by (intro analyze_performance_spec) simp_all
  with healthy_no_bottleneck[OF h] show ?thesis by simp
qed

lemma update_baselines_fields [simp]:
  "optimization_queue (update_baselines s) = optimization_queue s"
  "performance_history (update_baselines s) = performance_history s"
  by (simp_all add: update_baselines_def Let_def)

lemma healthy_adaptation:
  assumes "\<forall>m\<in>set (performance_history s). 0.7 \<le> ratio m"
  shows "snd (perform_adaptation now s) = None
       \<and> optimization_queue (fst (perform_adaptation now s)) = optimization_queue s
       \<and> performance_history (fst (perform_adaptation now s)) = performance_history s"
proof -
  let ?s1 = "s\<lparr>stats := (stats s)\<lparr>learning_cycles := learning_cycles (stats s) + 1\<rparr>\<rparr>"
  have "\<forall>m\<in>set (performance_history ?s1). 0.7 \<le> ratio m" using assms by simp
  from healthy_analysis[OF this] obtain a where
    a: "analyze_performance ?s1 = Inr a" "bottlenecks a = []" by blast
  show ?thesis
    by (simp add: perform_adaptation_def Let_def a apply_optimizations_def train_models_def)
qed

lemma healthy_cycles:
  "\<forall>m\<in>set (performance_history s). 0.7 \<le> ratio m \<Longrightarrow>
   optimization_queue (adaptation_cycles nows s) = optimization_queue s"
proof (induction nows arbitrary: s)
  case Nil
  then show ?case by simp
next
  case (Cons now nows)
  from healthy_adaptation[OF Cons.prems, of now] Cons.prems
  have "\<forall>m\<in>set (performance_history (fst (perform_adaptation now s))). 0.7 \<le> ratio m"
    by simp
  from Cons.IH[OF this] healthy_adaptation[OF Cons.prems, of now] show ?case by simp
qed

text \<open>
  Claim C3. If every metric of the history has \<open>value / target\<close> at least 0.8, then
  however many adaptation cycles run, the optimization queue stays as it was: no request
  is appended. (A metric with target 0 has no ratio; in HOL its quotient is 0, so the
  hypothesis excludes it.)
\<close>

theorem healthy_history_never_enqueues:
  assumes "\<forall>m\<in>set (performance_history s). 0.8 \<le> value m / target m"
  shows "optimization_queue (adaptation_cycles nows s) = optimization_queue s"
proof -
  have "\<forall>m\<in>set (performance_history s). 0.7 \<le> ratio m"
  proof
    fix m assume "m \<in> set (performance_history s)"
    with assms have "0.8 \<le> value m / target m" by blast
    then have "0.7 \<le> value m / target m" by linarith
    then show "0.7 \<le> ratio m" by (simp only: ratio_def)
  qed
  then show ?thesis by (rule healthy_cycles)
qed

theorem healthy_history_never_enqueues_witness:
  "optimization_queue
     (adaptation_cycles [10, 20, 30] (init\<lparr>performance_history := replicate 20 good_metric\<rparr>))
   = []"
  using healthy_history_never_enqueues
    [of "init\<lparr>performance_history := replicate 20 good_metric\<rparr>" "[10, 20, 30]"]
  by (simp add: good_metric_def init_def)

section \<open>The queue is drained one request per tick\<close>

lemma trends_fields [simp]:
  "optimization_queue (fst (update_performance_trends s)) = optimization_queue s"
  "performance_history (fst (update_performance_trends s)) = performance_history s"
  "settings (fst (update_performance_trends s)) = settings s"
  by (simp_all add: update_performance_trends_def Let_def split: prod.splits)

lemma suggestions_fields [simp]:
  "optimization_queue (generate_improvement_suggestions now s) = optimization_queue s"
  "performance_history (generate_improvement_suggestions now s) = performance_history s"
  by (simp_all add: generate_improvement_suggestions_def)

lemma healthy_update:
  assumes "\<forall>m\<in>set (performance_history s). 0.7 \<le> ratio m"
  shows "optimization_queue (fst (update inp s)) = tl (optimization_queue s)
       \<and> performance_history (fst (update inp s)) = performance_history s"
proof -
  obtain s' where pa: "perform_adaptation (enqueue_time inp) s = (s', None)"
    "optimization_queue s' = optimization_queue s" "performance_history s' = performance_history s"
    using healthy_adaptation[OF assms, of "enqueue_time inp"]
    by (cases "perform_adaptation (enqueue_time inp) s") auto
  define s1 where "s1 =
    (if current_time inp - last_adaptation_time s > adaptation_interval (settings s)
     then s'\<lparr>last_adaptation_time := current_time inp\<rparr> else s)"
  define s2 where "s2 = process_optimization_queue (outcome inp) (applied_time inp) s1"
  have s1: "optimization_queue s1 = optimization_queue s"
    "performance_history s1 = performance_history s"
    by (simp_all add: s1_def pa)
  have s2: "optimization_queue s2 = tl (optimization_queue s)"
    "performance_history s2 = performance_history s"
    by (simp_all add: s2_def process_queue_tl process_queue_history s1)
  obtain s3 e where tr: "update_performance_trends s2 = (s3, e)"
    by (cases "update_performance_trends s2")
  have s3: "optimization_queue s3 = tl (optimization_queue s)"
    "performance_history s3 = performance_history s"
    using trends_fields(1,2)[of s2] by (simp_all add: tr s2)
  have "update inp s =
          (case e of Some x \<Rightarrow> (s3, Some x)
           | None \<Rightarrow> (if enable_autonomous_optimization (settings s3)
                       then generate_improvement_suggestions (suggestion_time inp) s3 else s3,
                       None))"
  proof -
    have r1: "(if current_time inp - last_adaptation_time s > adaptation_interval (settings s)
               then (case perform_adaptation (enqueue_time inp) s of
                       (s', Some e) \<Rightarrow> (s', Some e)
                     | (s', None) \<Rightarrow> (s'\<lparr>last_adaptation_time := current_time inp\<rparr>, None))
               else (s, None)) = (s1, None)"
      by (simp add: s1_def pa)
    show ?thesis
      unfolding update_def r1 by (cases e) (simp_all add: Let_def s2_def[symmetric] tr)
  qed
  then show ?thesis
    by (cases e) (simp_all add: s3)
qed

lemma healthy_updates:
  "\<forall>m\<in>set (performance_history s). 0.7 \<le> ratio m \<Longrightarrow>
   optimization_queue (updates inps s) = drop (length inps) (optimization_queue s)"
proof (induction inps arbitrary: s)
  case Nil
  then show ?case by simp
next
  case (Cons inp inps)
  from healthy_update[OF Cons.prems, of inp] Cons.prems
  have "\<forall>m\<in>set (performance_history (fst (update inp s))). 0.7 \<le> ratio m" by simp
  from Cons.IH[OF this] healthy_update[OF Cons.prems, of inp]
  show ?case by (simp add: drop_Suc drop_tl)
qed

lemma drain_steps:
  "optimization_queue (fold (\<lambda>(sim, now). process_optimization_queue sim now) calls s)
     = drop (length calls) (optimization_queue s)"
proof (induction calls arbitrary: s)
  case Nil
  then show ?case by simp
next
  case (Cons call calls)
  then show ?case
    by (cases call) (simp add: process_queue_tl drop_Suc drop_tl)
qed

lemma update_via_adaptation:
  "update inp s =
     (case tick_adaptation inp s of
        (s1, Some e) \<Rightarrow> (s1, Some e)
      | (s1, None) \<Rightarrow>
          let s2 = process_optimization_queue (outcome inp) (applied_time inp) s1 in
          (case update_performance_trends s2 of
             (s3, Some e) \<Rightarrow> (s3, Some e)
           | (s3, None) \<Rightarrow>
               (if enable_autonomous_optimization (settings s3)
                then generate_improvement_suggestions (suggestion_time inp) s3 else s3,
                None)))"
  unfolding update_def tick_adaptation_def adaptation_due_def ..

lemma tick_returns:
  assumes "snd (tick_adaptation inp s) = None"
  shows "optimization_queue (fst (update inp s))
           = tl (optimization_queue (fst (tick_adaptation inp s)))"
proof -
  obtain s1 where ta: "tick_adaptation inp s = (s1, None)"
    using assms by (cases "tick_adaptation inp s") auto
  define s2 where "s2 = process_optimization_queue (outcome inp) (applied_time inp) s1"
  obtain s3 e where tr: "update_performance_trends s2 = (s3, e)"
    by (cases "update_performance_trends s2")
  have q2: "optimization_queue s2 = tl (optimization_queue s1)"
    by (simp add: s2_def process_queue_tl)
  have s3: "optimization_queue s3 = tl (optimization_queue s1)"
    using trends_fields(1)[of s2] by (simp add: tr q2)
  show ?thesis
    unfolding update_via_adaptation ta
    by (cases e) (simp_all add: Let_def s2_def[symmetric] tr s3)
qed

lemma tick_raises:
  assumes "adaptation_due inp s" "10 \<le> length (performance_history s)"
    and "\<exists>m\<in>set (last_n 100 (performance_history s)). target m = 0"
  shows "update inp s =
           (s\<lparr>stats := (stats s)\<lparr>learning_cycles := learning_cycles (stats s) + 1\<rparr>\<rparr>,
            Some ZeroDivisionError)"
  unfolding update_via_adaptation
  using assms(1) by (simp add: tick_adaptation_def adaptation_raises[OF assms(2,3)])

lemma tick_not_due:
  assumes "\<not> adaptation_due inp s"
  shows "optimization_queue (fst (update inp s)) = tl (optimization_queue s)"
  using tick_returns[of inp s] assms by (simp add: tick_adaptation_def)

lemma quiet_ticks_drain:
  "quiet_ticks inps s \<Longrightarrow>
   optimization_queue (updates inps s) = drop (length inps) (optimization_queue s)"
proof (induction inps arbitrary: s)
  case Nil
  then show ?case by simp
next
  case (Cons inp inps)
  then have q: "snd (tick_adaptation inp s) = None"
    "optimization_queue (fst (tick_adaptation inp s)) = optimization_queue s"
    "quiet_ticks inps (fst (update inp s))" by simp_all
  from tick_returns[OF q(1)] q(2)
  have "optimization_queue (fst (update inp s)) = tl (optimization_queue s)" by simp
  with Cons.IH[OF q(3)] show ?case by (simp add: drop_Suc drop_tl)
qed

lemma healthy_quiet:
  "\<forall>m\<in>set (performance_history s). 0.7 \<le> ratio m \<Longrightarrow> quiet_ticks inps s"
proof (induction inps arbitrary: s)
  case Nil
  then show ?case by simp
next
  case (Cons inp inps)
  have ta: "snd (tick_adaptation inp s) = None"
    "optimization_queue (fst (tick_adaptation inp s)) = optimization_queue s"
    using healthy_adaptation[OF Cons.prems, of "enqueue_time inp"]
    by (cases "perform_adaptation (enqueue_time inp) s"; auto simp: tick_adaptation_def)+
  from healthy_update[OF Cons.prems, of inp] Cons.prems
  have "\<forall>m\<in>set (performance_history (fst (update inp s))). 0.7 \<le> ratio m" by simp
  from Cons.IH[OF this] ta show ?case by simp
qed

lemma process_queue_clock [simp]:
  "last_adaptation_time (process_optimization_queue sim now s) = last_adaptation_time s"
  "settings (process_optimization_queue sim now s) = settings s"
  by (cases "optimization_queue s"; cases sim;
      simp add: process_optimization_queue_def apply_optimization_strategy_def Let_def)+

lemma trends_clock [simp]:
  "last_adaptation_time (fst (update_performance_trends s)) = last_adaptation_time s"
  by (simp add: update_performance_trends_def Let_def split: prod.splits)

lemma suggestions_clock [simp]:
  "last_adaptation_time (generate_improvement_suggestions now s) = last_adaptation_time s"
  "settings (generate_improvement_suggestions now s) = settings s"
  by (simp_all add: generate_improvement_suggestions_def)

lemma not_due_clock:
  assumes "\<not> adaptation_due inp s"
  shows "last_adaptation_time (fst (update inp s)) = last_adaptation_time s
       \<and> settings (fst (update inp s)) = settings s"
proof -
  have ta: "tick_adaptation inp s = (s, None)" using assms by (simp add: tick_adaptation_def)
  define s2 where "s2 = process_optimization_queue (outcome inp) (applied_time inp) s"
  obtain s3 e where tr: "update_performance_trends s2 = (s3, e)"
    by (cases "update_performance_trends s2")
  have c2: "last_adaptation_time s2 = last_adaptation_time s" "settings s2 = settings s"
    by (simp_all add: s2_def)
  have s3: "last_adaptation_time s3 = last_adaptation_time s" "settings s3 = settings s"
    using trends_clock[of s2] trends_fields(3)[of s2] by (simp_all add: tr c2)
  show ?thesis
    unfolding update_via_adaptation ta
    by (cases e) (simp_all add: Let_def s2_def[symmetric] tr s3)
qed

lemma not_due_quiet:
  "\<forall>inp\<in>set inps. \<not> adaptation_due inp s \<Longrightarrow> quiet_ticks inps s"
proof (induction inps arbitrary: s)
  case Nil
  then show ?case by simp
next
  case (Cons inp inps)
  then have nd: "\<not> adaptation_due inp s" by simp
  have "\<forall>i\<in>set inps. \<not> adaptation_due i (fst (update inp s))"
    using Cons.prems not_due_clock[OF nd] by (simp add: adaptation_due_def)
  from Cons.IH[OF this] nd show ?case by (simp add: tick_adaptation_def)
qed

lemma tick_adaptation_returns_iff:
  "snd (tick_adaptation inp s) = None \<longleftrightarrow>
     \<not> (adaptation_due inp s \<and> 10 \<le> length (performance_history s)
        \<and> (\<exists>m\<in>set (last_n 100 (performance_history s)). target m = 0))"
proof (cases "adaptation_due inp s")
  case False
  then show ?thesis by (simp add: tick_adaptation_def)
next
  case True
  show ?thesis
  proof (cases "10 \<le> length (performance_history s)
                \<and> (\<exists>m\<in>set (last_n 100 (performance_history s)). target m = 0)")
    case True
    then have "perform_adaptation (enqueue_time inp) s =
                 (s\<lparr>stats := (stats s)\<lparr>learning_cycles := learning_cycles (stats s) + 1\<rparr>\<rparr>,
                  Some ZeroDivisionError)"
      by (intro adaptation_raises) simp_all
    with True \<open>adaptation_due inp s\<close> show ?thesis by (simp add: tick_adaptation_def)
  next
    case False
    then have "length (performance_history s) < 10
               \<or> (\<forall>m\<in>set (last_n 100 (performance_history s)). target m \<noteq> 0)"
      by auto
    from adaptation_returns[OF this, of "enqueue_time inp"]
    have "snd (tick_adaptation inp s) = None"
      using \<open>adaptation_due inp s\<close>
      by (cases "perform_adaptation (enqueue_time inp) s") (simp add: tick_adaptation_def)
    with False show ?thesis by simp
  qed
qed

text \<open>
  Claim C5, as the code has it. A tick does not always dequeue. The adaptation is due, the
  history holds ten metrics with target 0, and the queue holds one request: the analysis
  raises before the queue is processed, so after the tick the request is still queued,
  and nothing was enqueued.
\<close>

theorem raising_tick_dequeues_nothing:
  "optimization_queue
     (updates [sample_tick]
        (init\<lparr>optimization_queue := [renderer_request],
              performance_history := replicate 10 zero_target_metric\<rparr>))
   = [renderer_request]"
  using tick_raises
    [of sample_tick "init\<lparr>optimization_queue := [renderer_request],
                           performance_history := replicate 10 zero_target_metric\<rparr>"]
  by (simp add: adaptation_due_def sample_tick_def init_def default_settings_def last_n_def
        zero_target_metric_def)

text \<open>
  Claim C5, amended. Every call of \<^verbatim>\<open>_process_optimization_queue\<close> removes exactly the
  request at the head of the queue, so after \<open>k\<close> calls the first \<open>k\<close> requests are
  gone. For the ticks of \<^verbatim>\<open>update\<close>: over a run of ticks in each of which the adaptation
  step returns and enqueues nothing (\<open>quiet_ticks\<close>), the queue after \<open>k\<close> ticks is
  the old queue without its first \<open>k\<close> requests; it is empty after \<open>k\<close> ticks exactly
  when it held at most \<open>k\<close> requests, so a queue of \<open>N\<close> requests is emptied by
  \<open>N\<close> ticks and by no fewer. A run is of this kind when the adaptation is due in none
  of its ticks, and when no metric of the history has a ratio below 0.7. In any tick
  whose adaptation step returns, exactly the head of the queue as that step left it is
  removed. The adaptation step raises exactly when it is due, the history holds at least
  10 metrics and one of the last 100 has target 0; such a tick ends with
  \<open>ZeroDivisionError\<close> before the queue is processed and dequeues nothing.
\<close>

theorem queue_drains_one_per_tick:
  "optimization_queue (fold (\<lambda>(sim, now). process_optimization_queue sim now) calls s)
     = drop (length calls) (optimization_queue s)
   \<and> (quiet_ticks inps s \<longrightarrow>
        optimization_queue (updates inps s) = drop (length inps) (optimization_queue s)
        \<and> (optimization_queue (updates inps s) = []
             \<longleftrightarrow> length (optimization_queue s) \<le> length inps))
   \<and> ((\<forall>i\<in>set inps. \<not> adaptation_due i s) \<longrightarrow> quiet_ticks inps s)
   \<and> ((\<forall>m\<in>set (performance_history s). 0.7 \<le> ratio m) \<longrightarrow> quiet_ticks inps s)
   \<and> (snd (tick_adaptation inp s) = None \<longrightarrow>
        optimization_queue (fst (update inp s))
          = tl (optimization_queue (fst (tick_adaptation inp s))))
   \<and> (snd (tick_adaptation inp s) = None \<longleftrightarrow>
        \<not> (adaptation_due inp s \<and> 10 \<le> length (performance_history s)
           \<and> (\<exists>m\<in>set (last_n 100 (performance_history s)). target m = 0)))
   \<and> (adaptation_due inp s \<and> 10 \<le> length (performance_history s)
        \<and> (\<exists>m\<in>set (last_n 100 (performance_history s)). target m = 0) \<longrightarrow>
        update inp s =
          (s\<lparr>stats := (stats s)\<lparr>learning_cycles := learning_cycles (stats s) + 1\<rparr>\<rparr>,
           Some ZeroDivisionError))"
proof -
  have a: "quiet_ticks inps s \<longrightarrow>
        optimization_queue (updates inps s) = drop (length inps) (optimization_queue s)
        \<and> (optimization_queue (updates inps s) = []
             \<longleftrightarrow> length (optimization_queue s) \<le> length inps)"
    using quiet_ticks_drain[of inps s] by simp
  have b: "(\<forall>i\<in>set inps. \<not> adaptation_due i s) \<longrightarrow> quiet_ticks inps s"
    using not_due_quiet[of inps s] by blast
  have c: "(\<forall>m\<in>set (performance_history s). 0.7 \<le> ratio m) \<longrightarrow> quiet_ticks inps s"
    using healthy_quiet[of s inps] by blast
  have d: "snd (tick_adaptation inp s) = None \<longrightarrow>
        optimization_queue (fst (update inp s))
          = tl (optimization_queue (fst (tick_adaptation inp s)))"
    using tick_returns[of inp s] by blast
  have e: "adaptation_due inp s \<and> 10 \<le> length (performance_history s)
        \<and> (\<exists>m\<in>set (last_n 100 (performance_history s)). target m = 0) \<longrightarrow>
        update inp s =
          (s\<lparr>stats := (stats s)\<lparr>learning_cycles := learning_cycles (stats s) + 1\<rparr>\<rparr>,
           Some ZeroDivisionError)"
    using tick_raises[of inp s] by blast
  from drain_steps[of calls s] a b c d tick_adaptation_returns_iff[of inp s] e
  show ?thesis by (intro conjI)
qed

theorem queue_drains_one_per_tick_witness:
  "optimization_queue
     (updates [early_tick]
        (two_requests\<lparr>performance_history := replicate 12 slow_metric\<rparr>))
     = [renderer_request]
   \<and> optimization_queue
       (updates [early_tick, early_tick]
          (two_requests\<lparr>performance_history := replicate 12 slow_metric\<rparr>))
     = []
   \<and> optimization_queue
       (updates [sample_tick, sample_tick]
          (two_requests\<lparr>performance_history := replicate 60 good_metric\<rparr>))
     = []
   \<and> update sample_tick
       (two_requests\<lparr>performance_history := replicate 10 zero_target_metric\<rparr>)
     = (two_requests\<lparr>performance_history := replicate 10 zero_target_metric,
                      stats := default_stats\<lparr>learning_cycles := 1\<rparr>\<rparr>,
        Some ZeroDivisionError)"
proof -
  let ?slow = "two_requests\<lparr>performance_history := replicate 12 slow_metric\<rparr>"
  let ?good = "two_requests\<lparr>performance_history := replicate 60 good_metric\<rparr>"
  let ?zero = "two_requests\<lparr>performance_history := replicate 10 zero_target_metric\<rparr>"
  have due: "\<not> adaptation_due early_tick ?slow" "adaptation_due sample_tick ?zero"
    by (simp_all add: adaptation_due_def early_tick_def sample_tick_def two_requests_def
          init_def default_settings_def)
  have q: "optimization_queue ?slow = [renderer_request, renderer_request]"
    "optimization_queue ?good = [renderer_request, renderer_request]"
    by (simp_all add: two_requests_def)
  have z: "\<exists>m\<in>set (last_n 100 (performance_history ?zero)). target m = 0"
    by (simp add: last_n_def zero_target_metric_def)
  have g: "\<forall>m\<in>set (performance_history ?good). 0.7 \<le> ratio m"
    by (simp add: good_metric_def ratio_def)
  have st: "?zero\<lparr>stats := (stats ?zero)\<lparr>learning_cycles := learning_cycles (stats ?zero) + 1\<rparr>\<rparr>
              = two_requests\<lparr>performance_history := replicate 10 zero_target_metric,
                             stats := default_stats\<lparr>learning_cycles := 1\<rparr>\<rparr>"
    by (simp add: two_requests_def init_def default_stats_def)
  show ?thesis
    using queue_drains_one_per_tick [of "[]" ?slow "[early_tick]" early_tick]
          queue_drains_one_per_tick [of "[]" ?slow "[early_tick, early_tick]" early_tick]
          queue_drains_one_per_tick [of "[]" ?good "[sample_tick, sample_tick]" sample_tick]
          queue_drains_one_per_tick [of "[]" ?zero "[]" sample_tick]
          due q z g st
    by simp
qed

section \<open>Baselines\<close>





lemma cycles_history [simp]:
  "performance_history ((update_baselines ^^ n) s) = performance_history s"
  by (induction n) simp_all



lemma apply_optimizations_fields [simp]:
  "performance_history (apply_optimizations now a s) = performance_history s"
  "system_baselines (apply_optimizations now a s) = system_baselines s"
proof -
  have "performance_history (fold (enqueue_for now) bs s) = performance_history s
      \<and> system_baselines (fold (enqueue_for now) bs s) = system_baselines s" for bs
    by (induction bs arbitrary: s) simp_all
  then show "performance_history (apply_optimizations now a s) = performance_history s"
    "system_baselines (apply_optimizations now a s) = system_baselines s"
    by (simp_all add: apply_optimizations_def)
qed




lemma adaptation_cycles_raise:
  assumes "10 \<le> length (performance_history s)"
    and "\<exists>m\<in>set (last_n 100 (performance_history s)). target m = 0"
  shows "system_baselines (adaptation_cycles nows s) = system_baselines s"
  using assms
proof (induction nows arbitrary: s)
  case Nil
  then show ?case by simp
next
  case (Cons now nows)
  let ?s1 = "s\<lparr>stats := (stats s)\<lparr>learning_cycles := learning_cycles (stats s) + 1\<rparr>\<rparr>"
  have "10 \<le> length (performance_history ?s1)"
    "\<exists>m\<in>set (last_n 100 (performance_history ?s1)). target m = 0"
    using Cons.prems by simp_all
  from Cons.IH[OF this] show ?case
    by (simp add: adaptation_raises[OF Cons.prems])
qed



text \<open>The same for any number of cycles: on this input the baseline never comes near the
  constant value 1, as no baseline ever exists.\<close>

lemma zero_target_cycles_never_converge:
  "\<not> (\<exists>N. \<forall>nows. N \<le> length nows \<longrightarrow>
         (\<exists>b. baseline_of
                (system_baselines
                   (adaptation_cycles nows
                      (init\<lparr>performance_history := replicate 101 zero_target_metric\<rparr>)))
                ''physics'' ''frame_time'' = Some b
              \<and> \<bar>b - 1\<bar> < 1))"
proof
  let ?s = "init\<lparr>performance_history := replicate 101 zero_target_metric\<rparr>"
  assume "\<exists>N. \<forall>nows. N \<le> length nows \<longrightarrow>
         (\<exists>b. baseline_of (system_baselines (adaptation_cycles nows ?s))
                ''physics'' ''frame_time'' = Some b \<and> \<bar>b - 1\<bar> < 1)"
  then obtain N where N: "\<forall>nows. N \<le> length nows \<longrightarrow>
         (\<exists>b. baseline_of (system_baselines (adaptation_cycles nows ?s))
                ''physics'' ''frame_time'' = Some b \<and> \<bar>b - 1\<bar> < 1)" by blast
  have "N \<le> length (replicate N (0::real))" by simp
  with N obtain b where
    "baseline_of (system_baselines (adaptation_cycles (replicate N 0) ?s))
       ''physics'' ''frame_time'' = Some b" by blast
  moreover have "system_baselines (adaptation_cycles (replicate N 0) ?s) = system_baselines ?s"
    by (rule adaptation_cycles_raise) (simp_all add: last_n_def zero_target_metric_def)
  ultimately show False by (simp add: init_def baseline_of_def)
qed



end
